theory Spec2Isabelle
  imports Main "HOL-Library.Word" "HOL-Library.Multiset"
begin

section \<open>The URL shortener service: data model\<close>

text \<open>
  The service is an Express application over a Mongoose model \<open>Url\<close>. Each route
  handler is an \<open>async\<close> function: a sequence of store operations (one per
  \<open>await\<close>) inside one \<open>try\<close>/\<open>catch\<close>. A handler is modelled as a function from
  the request body and the collection to the response and the collection afterwards.

  JavaScript strings are sequences of UTF-16 code units. A JavaScript number is a
  double. The numbers of the handlers (\<open>accessCount\<close>, \<open>page\<close>, \<open>limit\<close>) hold
  integers and are modelled by their integer values; every result of their
  arithmetic is rounded to the nearest double, as the handlers' arithmetic does.
  Up to \<open>2^53\<close> that rounding changes nothing; above, it does. The infinities
  (magnitudes of \<open>2^1024\<close> and more) are not modelled. Timestamps are only stored
  and compared. The fields of a request body are read at the types the specification
  gives them: a string, or absent, for \<open>originalUrl\<close> and \<open>shortUrl\<close>; an
  integer, or absent, for \<open>limit\<close> and \<open>page\<close>.

  The fire-and-forget \<open>logMessage\<close> calls never throw and never touch the
  collection; they are left out, as is the derived field \<open>shortUrlFull\<close>
  (protocol, host and \<open>shortUrl\<close> glued together).

  Two requests can overlap only at an \<open>await\<close>. For the two handlers that read and
  then write, the part up to the last read and the part from the write on are
  separate functions, and the handler is the second after the first; a run of
  overlapping requests is then a sequence of such parts.
\<close>

type_synonym js_string = "16 word list"

text \<open>The code units of an ASCII literal.\<close>

definition js :: "string \<Rightarrow> js_string" where
  "js s = map of_char s"

text \<open>
  The double nearest to a natural number, ties to the even significand: a number of
  more than 53 bits keeps its leading 53 bits \<open>q\<close>, and the bits \<open>r\<close> that are cut
  decide whether \<open>q\<close> is rounded up.
\<close>

fun bit_length :: "nat \<Rightarrow> nat" where
  "bit_length n = (if n = 0 then 0 else Suc (bit_length (n div 2)))"

definition to_double :: "nat \<Rightarrow> nat" where
  "to_double n =
     (if n \<le> 2 ^ 53 then n
      else
        let e = bit_length n - 53; q = n div 2 ^ e; r = n mod 2 ^ e
        in if 2 ^ e < 2 * r \<or> (2 * r = 2 ^ e \<and> odd q) then (q + 1) * 2 ^ e else q * 2 ^ e)"

definition js_number :: "int \<Rightarrow> int" where
  "js_number i = (if i < 0 then - int (to_double (nat (- i))) else int (to_double (nat i)))"

text \<open>
  A document of \<open>urlSchema\<close>, with the \<open>_id\<close> that Mongoose gives every document.
  \<open>createdAt\<close> is in milliseconds since the epoch.
\<close>

record url_doc =
  oid :: nat
  originalUrl :: js_string
  shortUrl :: js_string
  createdAt :: int
  accessCount :: nat

text \<open>The collection, in insertion order (documents are never deleted).\<close>

type_synonym store = "url_doc list"

text \<open>What a store operation can throw.\<close>

datatype store_error =
    ValidationFailed
  | DuplicateKey
  | DocumentNotFound
  | BadQuery
  | StoreUnavailable

text \<open>
  What one request sees of the world outside the handler: the values that
  \<open>shortid.generate()\<close> returns to its successive calls, the \<open>_id\<close> and the
  \<open>Date.now()\<close> that \<open>new Url(...)\<close> gives a fresh document, and whether each
  store operation reaches the store (\<open>reads_ok k\<close> for the \<open>k\<close>-th query of the
  request, \<open>write_ok\<close> for its \<open>save()\<close>).
\<close>

record env =
  generate :: "nat \<Rightarrow> js_string"
  object_id :: nat
  now :: int
  reads_ok :: "nat \<Rightarrow> bool"
  write_ok :: bool

text \<open>The JSON bodies the handlers send, and a response: status and body.\<close>

record pagination =
  currentPage :: int
  totalPages :: "int option"
  totalUrls :: nat
  limit :: int

datatype body =
    ErrorBody string
  | ShortenBody string js_string js_string int
  | InfoBody js_string js_string int nat
  | RedirectBody js_string nat
  | ListBody "url_doc list" pagination

type_synonym response = "nat \<times> body"

section \<open>The schema and the store operations\<close>

text \<open>
  The pattern \<^verbatim>\<open>/^https?:\/\/.+/\<close>, used by the schema validator and by the
  \<open>/shorten\<close> handler. Without the \<open>s\<close> flag the dot matches any code unit
  except the line terminators LF, CR, U+2028 and U+2029, and \<open>.+\<close> needs one such
  code unit right after the two slashes.
\<close>

definition line_terminator :: "16 word \<Rightarrow> bool" where
  "line_terminator c = (c = 0x0A \<or> c = 0x0D \<or> c = 0x2028 \<or> c = 0x2029)"

fun strip_prefix :: "js_string \<Rightarrow> js_string \<Rightarrow> js_string option" where
  "strip_prefix [] s = Some s"
| "strip_prefix (p # ps) [] = None"
| "strip_prefix (p # ps) (c # cs) = (if p = c then strip_prefix ps cs else None)"

definition after_scheme :: "js_string \<Rightarrow> js_string option" where
  "after_scheme s =
     (case strip_prefix (js ''http'') s of
        None \<Rightarrow> None
      | Some r \<Rightarrow>
          (case strip_prefix (js ''s://'') r of
             Some t \<Rightarrow> Some t
           | None \<Rightarrow> strip_prefix (js ''://'') r))"

definition url_pattern :: "js_string \<Rightarrow> bool" where
  "url_pattern s =
     (case after_scheme s of
        None \<Rightarrow> False
      | Some [] \<Rightarrow> False
      | Some (c # cs) \<Rightarrow> \<not> line_terminator c)"

text \<open>
  Schema validation of a new document: \<open>originalUrl\<close> is required and must pass
  the validator, \<open>shortUrl\<close> is required (for a string, required means non-empty).
\<close>

definition validate_doc :: "url_doc \<Rightarrow> bool" where
  "validate_doc d =
     (originalUrl d \<noteq> [] \<and> url_pattern (originalUrl d) \<and> shortUrl d \<noteq> [])"

text \<open>\<open>Url.findOne(filter)\<close>: the first document that matches, or \<open>null\<close>.\<close>

definition findOne :: "bool \<Rightarrow> (url_doc \<Rightarrow> bool) \<Rightarrow> store \<Rightarrow> store_error + url_doc option" where
  "findOne ok P db = (if \<not> ok then Inl StoreUnavailable else Inr (find P db))"

text \<open>
  \<open>save()\<close> of a new document: validation, then an insert, which the unique indexes
  on \<open>_id\<close> and on \<open>shortUrl\<close> (\<open>unique: true\<close>) reject with a duplicate-key error.
\<close>

definition save_new :: "bool \<Rightarrow> url_doc \<Rightarrow> store \<Rightarrow> store_error + store" where
  "save_new ok d db =
     (if \<not> validate_doc d then Inl ValidationFailed
      else if \<not> ok then Inl StoreUnavailable
      else if list_ex (\<lambda>x. oid x = oid d \<or> shortUrl x = shortUrl d) db then Inl DuplicateKey
      else Inr (db @ [d]))"

text \<open>
  \<open>save()\<close> of a document that was read from the store and whose \<open>accessCount\<close>
  was assigned. When the assigned value differs from the value read, the path is
  modified and \<open>save()\<close> sends an update of the document with that \<open>_id\<close> that
  sets \<open>accessCount\<close> to the assigned value. When it does not differ, nothing is
  modified and \<open>save()\<close> sends no update; it only asks the store whether the
  document is still there.
\<close>

fun update_one :: "nat \<Rightarrow> nat \<Rightarrow> store \<Rightarrow> store" where
  "update_one i n [] = []"
| "update_one i n (x # xs) =
     (if oid x = i then x\<lparr>accessCount := n\<rparr> # xs else x # update_one i n xs)"

definition save_existing :: "bool \<Rightarrow> bool \<Rightarrow> url_doc \<Rightarrow> store \<Rightarrow> store_error + store" where
  "save_existing ok modified d db =
     (if \<not> ok then Inl StoreUnavailable
      else if \<not> list_ex (\<lambda>x. oid x = oid d) db then Inl DocumentNotFound
      else if modified then Inr (update_one (oid d) (accessCount d) db)
      else Inr db)"

text \<open>
  \<open>Url.find().sort({createdAt: -1}).skip(skip).limit(n)\<close>. The store rejects a
  negative skip; a limit of 0 means no limit and a negative limit counts as its
  absolute value (the store then answers in a single batch, which the model takes to
  be large enough). The store does not fix the order among documents with equal
  \<open>createdAt\<close>; the model keeps them in insertion order.
\<close>

definition sort_desc :: "store \<Rightarrow> url_doc list" where
  "sort_desc db = sort_key (\<lambda>d. - createdAt d) db"

definition find_page :: "bool \<Rightarrow> int \<Rightarrow> int \<Rightarrow> store \<Rightarrow> store_error + url_doc list" where
  "find_page ok skip n db =
     (if \<not> ok then Inl StoreUnavailable
      else if skip < 0 then Inl BadQuery
      else if n = 0 then Inr (drop (nat skip) (sort_desc db))
      else Inr (take (nat \<bar>n\<bar>) (drop (nat skip) (sort_desc db))))"

definition countDocuments :: "bool \<Rightarrow> store \<Rightarrow> store_error + nat" where
  "countDocuments ok db = (if \<not> ok then Inl StoreUnavailable else Inr (length db))"

section \<open>POST /shorten\<close>

definition maxAttempts :: nat where
  "maxAttempts = 10"

text \<open>
  The loop that looks for a free code. Its state is \<open>(shortUrl, isUnique, attempts)\<close>;
  \<open>shortUrl\<close> is undefined before the first round. The query of round
  \<open>attempts\<close> is the request's query number \<open>attempts + 1\<close>.
\<close>

function generate_loop ::
  "env \<Rightarrow> store \<Rightarrow> js_string option \<times> bool \<times> nat \<Rightarrow> store_error + (js_string option \<times> bool \<times> nat)"
where
  "generate_loop e db (shortUrl_v, isUnique, attempts) =
     (if \<not> isUnique \<and> attempts < maxAttempts then
        (case findOne (reads_ok e (Suc attempts)) (\<lambda>d. shortUrl d = generate e attempts) db of
           Inl err \<Rightarrow> Inl err
         | Inr exists \<Rightarrow>
             generate_loop e db
               (Some (generate e attempts), (if exists = None then True else isUnique), Suc attempts))
      else Inr (shortUrl_v, isUnique, attempts))"
  by pat_completeness auto
termination
  by (relation "measure (\<lambda>(e, db, s, u, a). maxAttempts - a)") auto

definition internal_shorten :: response where
  "internal_shorten = (500, ErrorBody ''Internal server error while shortening URL'')"

text \<open>
  Lines 79 to 128: validation, the lookup by \<open>originalUrl\<close> and the loop. The
  result is either the response the handler returns here, or the \<open>originalUrl\<close>
  and the code it goes on to save.
\<close>

definition shorten_pick ::
  "env \<Rightarrow> js_string option \<Rightarrow> store \<Rightarrow> response + js_string \<times> js_string option" where
  "shorten_pick e req db =
     (case req of
        None \<Rightarrow> Inl (400, ErrorBody ''originalUrl is required in request body'')
      | Some u \<Rightarrow>
          if u = [] then Inl (400, ErrorBody ''originalUrl is required in request body'')
          else if \<not> url_pattern u then
            Inl (400, ErrorBody ''Invalid URL format. Must be a valid HTTP or HTTPS URL'')
          else
            (case findOne (reads_ok e 0) (\<lambda>d. originalUrl d = u) db of
               Inl err \<Rightarrow> Inl internal_shorten
             | Inr (Some existingUrl) \<Rightarrow>
                 Inl (200, ShortenBody ''URL already shortened'' (originalUrl existingUrl)
                        (shortUrl existingUrl) (createdAt existingUrl))
             | Inr None \<Rightarrow>
                 (case generate_loop e db (None, False, 0) of
                    Inl err \<Rightarrow> Inl internal_shorten
                  | Inr (shortUrl_v, isUnique, attempts) \<Rightarrow>
                      if \<not> isUnique then
                        Inl (500, ErrorBody ''Failed to generate unique short URL'')
                      else Inr (u, shortUrl_v))))"

text \<open>
  Lines 130 to 149: the new document and its \<open>save()\<close>. An undefined \<open>shortUrl\<close>
  fails the schema's \<open>required\<close>. Whatever \<open>save()\<close> throws lands in the handler's
  \<open>catch\<close>.
\<close>

definition shorten_save :: "env \<Rightarrow> js_string \<Rightarrow> js_string option \<Rightarrow> store \<Rightarrow> response \<times> store" where
  "shorten_save e u shortUrl_v db =
     (case shortUrl_v of
        None \<Rightarrow> (internal_shorten, db)
      | Some c \<Rightarrow>
          (case save_new (write_ok e)
                  \<lparr>oid = object_id e, originalUrl = u, shortUrl = c,
                   createdAt = now e, accessCount = 0\<rparr> db of
             Inl err \<Rightarrow> (internal_shorten, db)
           | Inr db' \<Rightarrow> ((201, ShortenBody ''URL shortened successfully'' u c (now e)), db')))"

definition shorten :: "env \<Rightarrow> js_string option \<Rightarrow> store \<Rightarrow> response \<times> store" where
  "shorten e req db =
     (case shorten_pick e req db of
        Inl resp \<Rightarrow> (resp, db)
      | Inr (u, shortUrl_v) \<Rightarrow> shorten_save e u shortUrl_v db)"

section \<open>POST /url-info\<close>

definition url_info :: "env \<Rightarrow> js_string option \<Rightarrow> store \<Rightarrow> response \<times> store" where
  "url_info e req db =
     (case req of
        None \<Rightarrow> ((400, ErrorBody ''shortUrl is required in request body''), db)
      | Some s \<Rightarrow>
          if s = [] then ((400, ErrorBody ''shortUrl is required in request body''), db)
          else
            (case findOne (reads_ok e 0) (\<lambda>d. shortUrl d = s) db of
               Inl err \<Rightarrow>
                 ((500, ErrorBody ''Internal server error while retrieving URL info''), db)
             | Inr None \<Rightarrow> ((404, ErrorBody ''Short URL not found''), db)
             | Inr (Some url) \<Rightarrow>
                 ((200, InfoBody (originalUrl url) (shortUrl url) (createdAt url)
                          (accessCount url)), db)))"

section \<open>POST /redirect\<close>

definition internal_redirect :: response where
  "internal_redirect = (500, ErrorBody ''Internal server error while redirecting URL'')"

text \<open>
  Lines 193 to 208: the check of the body and the read. The result is either the
  response the handler returns here, or the document it read.
\<close>

definition redirect_find :: "env \<Rightarrow> js_string option \<Rightarrow> store \<Rightarrow> response + url_doc" where
  "redirect_find e req db =
     (case req of
        None \<Rightarrow> Inl (400, ErrorBody ''shortUrl is required in request body'')
      | Some s \<Rightarrow>
          if s = [] then Inl (400, ErrorBody ''shortUrl is required in request body'')
          else
            (case findOne (reads_ok e 0) (\<lambda>d. shortUrl d = s) db of
               Inl err \<Rightarrow> Inl internal_redirect
             | Inr None \<Rightarrow> Inl (404, ErrorBody ''Short URL not found'')
             | Inr (Some url) \<Rightarrow> Inr url))"

text \<open>
  Lines 210 to 219: the count of the document that was read is incremented in the
  handler, by an addition of doubles, and the document is saved.
\<close>

definition redirect_save :: "env \<Rightarrow> url_doc \<Rightarrow> store \<Rightarrow> response \<times> store" where
  "redirect_save e url db =
     (let url' = url\<lparr>accessCount := to_double (accessCount url + 1)\<rparr> in
      case save_existing (write_ok e) (accessCount url' \<noteq> accessCount url) url' db of
        Inl err \<Rightarrow> (internal_redirect, db)
      | Inr db' \<Rightarrow> ((200, RedirectBody (originalUrl url') (accessCount url')), db'))"

definition redirect :: "env \<Rightarrow> js_string option \<Rightarrow> store \<Rightarrow> response \<times> store" where
  "redirect e req db =
     (case redirect_find e req db of
        Inl resp \<Rightarrow> (resp, db)
      | Inr url \<Rightarrow> redirect_save e url db)"

section \<open>POST /urls\<close>

text \<open>
  \<open>parseInt\<close> of a number writes the number as a string and reads the digits the
  string starts with. A number that holds an integer below \<open>10^21\<close> in magnitude is
  written in decimal, so \<open>parseInt\<close> gives it back. From \<open>10^21\<close> on the string is
  in exponent notation, the shortest digits that still denote the number, and
  \<open>parseInt\<close> reads the one digit before the point or the exponent. That digit is
  the leading decimal digit of the number, unless the next number of one significant
  digit above it denotes the same double.
\<close>

fun dec_length :: "nat \<Rightarrow> nat" where
  "dec_length n = (if n < 10 then 1 else Suc (dec_length (n div 10)))"

definition exp_lead :: "nat \<Rightarrow> nat" where
  "exp_lead n =
     (let p = dec_length n - 1; ld = n div 10 ^ p
      in if to_double ((ld + 1) * 10 ^ p) = n then (if ld = 9 then 1 else ld + 1) else ld)"

definition parseInt :: "int \<Rightarrow> int" where
  "parseInt n =
     (if \<bar>n\<bar> < 10 ^ 21 then n
      else if n < 0 then - int (exp_lead (nat (- n)))
      else int (exp_lead (nat n)))"

text \<open>
  \<open>Math.ceil(total / limit)\<close> is infinite or not a number when \<open>limit\<close> is 0,
  which JSON writes as \<open>null\<close>; otherwise the rounding of the quotient never
  reaches the next integer, since \<open>total\<close> is below \<open>2^53\<close>.
\<close>

definition ceil_div :: "nat \<Rightarrow> int \<Rightarrow> int option" where
  "ceil_div n lim = (if lim = 0 then None else Some (- ((- int n) div lim)))"

text \<open>
  The body's \<open>limit\<close> and \<open>page\<close> default to 10 and 1 when absent; a number in
  the body is read as the nearest double.
\<close>

definition urls :: "env \<Rightarrow> int option \<Rightarrow> int option \<Rightarrow> store \<Rightarrow> response \<times> store" where
  "urls e limit_req page_req db =
     (let lim = (case limit_req of None \<Rightarrow> 10 | Some l \<Rightarrow> js_number l);
          page = (case page_req of None \<Rightarrow> 1 | Some p \<Rightarrow> js_number p);
          skip = js_number (js_number (page - 1) * lim)
      in case find_page (reads_ok e 0) skip (parseInt lim) db of
           Inl err \<Rightarrow> ((500, ErrorBody ''Internal server error while retrieving URLs''), db)
         | Inr found \<Rightarrow>
             (case countDocuments (reads_ok e 1) db of
                Inl err \<Rightarrow> ((500, ErrorBody ''Internal server error while retrieving URLs''), db)
              | Inr total_v \<Rightarrow>
                  ((200, ListBody found
                           \<lparr>currentPage = parseInt page, totalPages = ceil_div total_v lim,
                            totalUrls = total_v, limit = parseInt lim\<rparr>), db)))"

section \<open>Requests, sequences of requests and sample data used in the statements\<close>

text \<open>
  A request whose code generator is stubbed to return the same code at every call and
  whose store operations all reach the store.
\<close>

definition stub_env :: "js_string \<Rightarrow> nat \<Rightarrow> int \<Rightarrow> env" where
  "stub_env code i t =
     \<lparr>generate = (\<lambda>k. code), object_id = i, now = t, reads_ok = (\<lambda>k. True), write_ok = True\<rparr>"

text \<open>
  A request whose generator returns one code at its first call and another code at
  every later call, and whose store operations all reach the store.
\<close>

definition two_code_env :: "js_string \<Rightarrow> js_string \<Rightarrow> nat \<Rightarrow> int \<Rightarrow> env" where
  "two_code_env code code' i t =
     \<lparr>generate = (\<lambda>k. if k = 0 then code else code'), object_id = i, now = t,
      reads_ok = (\<lambda>k. True), write_ok = True\<rparr>"

text \<open>The store after a sequence of \<open>/redirect\<close> requests for one code, one after the other.\<close>

fun redirect_seq :: "env list \<Rightarrow> js_string option \<Rightarrow> store \<Rightarrow> store" where
  "redirect_seq [] req db = db"
| "redirect_seq (e # es) req db = redirect_seq es req (snd (redirect e req db))"

text \<open>The \<open>shortUrl\<close> a response carries, if any.\<close>

fun body_shortUrl :: "body \<Rightarrow> js_string option" where
  "body_shortUrl (ShortenBody m u c t) = Some c"
| "body_shortUrl (InfoBody u c t n) = Some c"
| "body_shortUrl b = None"

text \<open>The number of documents stored for an \<open>originalUrl\<close>.\<close>

definition records_for :: "js_string \<Rightarrow> store \<Rightarrow> nat" where
  "records_for u db = length (filter (\<lambda>d. originalUrl d = u) db)"

text \<open>
  The pattern as the specification words it for \<open>shorten\<close>, \<^verbatim>\<open>^https?://\<close>: the
  string starts with the scheme and the two slashes.
\<close>

definition spec_scheme_pattern :: "js_string \<Rightarrow> bool" where
  "spec_scheme_pattern s = (after_scheme s \<noteq> None)"

text \<open>Sample documents for the concrete runs below.\<close>

definition abc_doc :: "nat \<Rightarrow> url_doc" where
  "abc_doc n =
     \<lparr>oid = 1, originalUrl = js ''http://a.com'', shortUrl = js ''abc'',
      createdAt = 100, accessCount = n\<rparr>"


section \<open>Auxiliary facts\<close>

declare generate_loop.simps [simp del]

declare bit_length.simps [simp del]

declare dec_length.simps [simp del]

lemmas eval_defs = js_def stub_env_def abc_doc_def findOne_def save_new_def save_existing_def
  validate_doc_def url_pattern_def after_scheme_def line_terminator_def maxAttempts_def
  internal_shorten_def internal_redirect_def to_double_def

subsection \<open>Numbers\<close>

text \<open>
  Up to \<open>2^53\<close> every integer is a double, so rounding changes nothing there, and
  \<open>parseInt\<close> gives back what it is given. At \<open>2^53\<close> adding 1 changes nothing,
  and \<open>parseInt\<close> of \<open>10^21\<close> is 1.
\<close>

lemma to_double_small: "n \<le> 2 ^ 53 \<Longrightarrow> to_double n = n"
  by (simp add: to_double_def)



lemma to_double_above: "to_double (2 ^ 53 + 1) = 2 ^ 53"
  by (simp add: to_double_def bit_length.simps Let_def)

lemma parseInt_sextillion: "parseInt (10 ^ 21) = 1"
  by (simp add: parseInt_def exp_lead_def to_double_def dec_length.simps bit_length.simps Let_def)

subsection \<open>Lists and the store operations\<close>

lemma find_snoc:
  "find P (xs @ [x]) =
     (case find P xs of Some y \<Rightarrow> Some y | None \<Rightarrow> if P x then Some x else None)"
  by (induction xs) auto

lemma find_in_store: "find P db = Some d \<Longrightarrow> list_ex (\<lambda>x. oid x = oid d) db"
  by (auto simp: find_Some_iff list_ex_iff)

lemma map_oid_update_one: "map oid (update_one i n db) = map oid db"
  by (induction db) auto

lemma list_ex_oid: "list_ex (\<lambda>x. oid x = i) db \<longleftrightarrow> i \<in> set (map oid db)"
  by (induction db) auto

lemma update_one_twice: "update_one i n (update_one i m db) = update_one i n db"
  by (induction db) auto

lemma find_update_one:
  "distinct (map oid db) \<Longrightarrow> find (\<lambda>x. shortUrl x = c) db = Some d \<Longrightarrow>
   find (\<lambda>x. shortUrl x = c) (update_one (oid d) n db) = Some (d\<lparr>accessCount := n\<rparr>)"
proof (induction db)
  case Nil
  then show ?case by simp
next
  case (Cons x xs)
  show ?case
  proof (cases "shortUrl x = c")
    case True
    with Cons.prems show ?thesis by simp
  next
    case False
    with Cons.prems have f: "find (\<lambda>x. shortUrl x = c) xs = Some d" by simp
    then have "d \<in> set xs" by (auto simp: find_Some_iff)
    with Cons.prems(1) have "oid x \<noteq> oid d" by auto
    with False Cons.IH f Cons.prems(1) show ?thesis by simp
  qed
qed

lemma save_new_fresh:
  "save_new ok d db = Inr db' \<Longrightarrow>
   db' = db @ [d] \<and> oid d \<notin> oid ` set db \<and> shortUrl d \<notin> shortUrl ` set db"
  by (simp add: save_new_def list_ex_iff image_iff split: if_splits) metis

lemma records_for_found:
  "find (\<lambda>d. originalUrl d = u) db = Some d \<Longrightarrow> 0 < records_for u db"
  by (induction db) (auto simp: records_for_def split: if_splits)

lemma records_for_none:
  "find (\<lambda>d. originalUrl d = u) db = None \<Longrightarrow> records_for u db = 0"
  by (induction db) (auto simp: records_for_def split: if_splits)


subsection \<open>The loop of \<open>/shorten\<close>\<close>

text \<open>
  The loop never runs past \<open>maxAttempts\<close> rounds, and when every code it is given
  from round \<open>a\<close> on is taken, it ends with \<open>isUnique\<close> false after round
  \<open>maxAttempts\<close>.
\<close>

lemma generate_loop_bound:
  "generate_loop e db (s, uq, a) = Inr (s', uq', a') \<Longrightarrow> a \<le> maxAttempts \<Longrightarrow>
   a' \<le> maxAttempts"
proof (induction e db "(s, uq, a)" arbitrary: s uq a rule: generate_loop.induct)
  case (1 e db s uq a)
  show ?case
  proof (cases "\<not> uq \<and> a < maxAttempts")
    case False
    with "1.prems" show ?thesis by (simp add: generate_loop.simps)
  next
    case True
    with "1.prems"(1) obtain ex where
      f: "findOne (reads_ok e (Suc a)) (\<lambda>d. shortUrl d = generate e a) db = Inr ex"
      and r: "generate_loop e db
                (Some (generate e a), (if ex = None then True else uq), Suc a) = Inr (s', uq', a')"
      by (subst (asm) generate_loop.simps) (auto split: sum.splits)
    from True have "Suc a \<le> maxAttempts" by simp
    with "1.hyps" [OF True f] r show ?thesis by blast
  qed
qed

lemma generate_loop_exhausted:
  "a \<le> maxAttempts \<Longrightarrow>
   \<forall>k. a \<le> k \<and> k < maxAttempts \<longrightarrow>
     reads_ok e (Suc k) \<and> (\<exists>d \<in> set db. shortUrl d = generate e k) \<Longrightarrow>
   generate_loop e db (s, False, a) =
     Inr (if a < maxAttempts then Some (generate e (maxAttempts - 1)) else s, False, maxAttempts)"
proof (induction "maxAttempts - a" arbitrary: a s)
  case 0
  then show ?case by (simp add: generate_loop.simps)
next
  case (Suc n)
  then have lt: "a < maxAttempts" by simp
  with Suc.prems have ok: "reads_ok e (Suc a)"
    and used: "\<exists>d \<in> set db. shortUrl d = generate e a"
    by auto
  from used obtain y where f: "find (\<lambda>d. shortUrl d = generate e a) db = Some y"
    by (cases "find (\<lambda>d. shortUrl d = generate e a) db") (auto simp: find_None_iff)
  have step: "generate_loop e db (s, False, a) =
      generate_loop e db (Some (generate e a), False, Suc a)"
    using lt ok f by (subst generate_loop.simps) (simp add: findOne_def)
  have "generate_loop e db (Some (generate e a), False, Suc a) =
     Inr (if Suc a < maxAttempts then Some (generate e (maxAttempts - 1))
          else Some (generate e a), False, maxAttempts)"
    using Suc.hyps(2) Suc.prems lt by (intro Suc.hyps(1)) auto
  moreover have "\<not> Suc a < maxAttempts \<Longrightarrow> a = maxAttempts - 1" using lt by simp
  ultimately show ?case using lt step by auto
qed

subsection \<open>The two halves of \<open>/shorten\<close>\<close>

lemma shorten_save_cases:
  "shorten_save e u c db = (internal_shorten, db) \<or>
   (\<exists>code. c = Some code \<and> shorten_save e u c db =
       ((201, ShortenBody ''URL shortened successfully'' u code (now e)),
        db @ [\<lparr>oid = object_id e, originalUrl = u, shortUrl = code,
               createdAt = now e, accessCount = 0\<rparr>]))"
  by (simp add: shorten_save_def save_new_def split: option.splits)

lemma shorten_save_keeps: "take (length db) (snd (shorten_save e u c db)) = db"
  using shorten_save_cases [of e u c db] by auto

lemma shorten_keeps: "take (length db) (snd (shorten e req db)) = db"
  by (cases "shorten_pick e req db")
    (auto simp: shorten_def shorten_save_keeps split: prod.splits)

lemma shorten_failure: "400 \<le> fst (fst (shorten e req db)) \<Longrightarrow> snd (shorten e req db) = db"
proof (cases "shorten_pick e req db")
  case (Inl r)
  then show ?thesis by (simp add: shorten_def)
next
  case (Inr p)
  obtain u c where p: "p = (u, c)" by (cases p)
  assume f: "400 \<le> fst (fst (shorten e req db))"
  from shorten_save_cases [of e u c db] show ?thesis
  proof
    assume "shorten_save e u c db = (internal_shorten, db)"
    with Inr p show ?thesis by (simp add: shorten_def)
  next
    assume "\<exists>code. c = Some code \<and> shorten_save e u c db =
       ((201, ShortenBody ''URL shortened successfully'' u code (now e)),
        db @ [\<lparr>oid = object_id e, originalUrl = u, shortUrl = code,
               createdAt = now e, accessCount = 0\<rparr>])"
    with Inr p f show ?thesis by (auto simp add: shorten_def)
  qed
qed

lemma shorten_pick_Inr:
  "shorten_pick e req db = Inr (u, c) \<Longrightarrow>
   req = Some u \<and> u \<noteq> [] \<and> url_pattern u \<and> find (\<lambda>d. originalUrl d = u) db = None"
  by (auto simp: shorten_pick_def findOne_def
      split: option.splits sum.splits if_splits prod.splits)

lemma shorten_pick_found:
  "u \<noteq> [] \<Longrightarrow> url_pattern u \<Longrightarrow> reads_ok e 0 \<Longrightarrow>
   find (\<lambda>d. originalUrl d = u) db = Some d \<Longrightarrow>
   shorten_pick e (Some u) db =
     Inl (200, ShortenBody ''URL already shortened'' (originalUrl d) (shortUrl d) (createdAt d))"
  by (simp add: shorten_pick_def findOne_def)

lemma shorten_pick_Inl_ok:
  "shorten_pick e req db = Inl (st, b) \<Longrightarrow> st < 400 \<Longrightarrow>
   \<exists>u d. req = Some u \<and> u \<noteq> [] \<and> url_pattern u \<and>
     find (\<lambda>d. originalUrl d = u) db = Some d \<and>
     b = ShortenBody ''URL already shortened'' (originalUrl d) (shortUrl d) (createdAt d)"
  by (auto simp: shorten_pick_def findOne_def internal_shorten_def
      split: option.splits sum.splits if_splits prod.splits)

lemma shorten_status_400:
  "fst (fst (shorten e (Some u) db)) = 400 \<longleftrightarrow> (u = [] \<or> \<not> url_pattern u)"
proof (cases "u = [] \<or> \<not> url_pattern u")
  case True
  then show ?thesis by (auto simp: shorten_def shorten_pick_def)
next
  case False
  then have v: "u \<noteq> []" "url_pattern u" by auto
  have "fst (fst (shorten e (Some u) db)) \<noteq> 400"
  proof (cases "shorten_pick e (Some u) db")
    case (Inl r)
    with v have "fst r \<noteq> 400"
      by (auto simp: shorten_pick_def internal_shorten_def
          split: sum.splits option.splits if_splits prod.splits)
    with Inl show ?thesis by (simp add: shorten_def)
  next
    case (Inr p)
    obtain u' c where p: "p = (u', c)" by (cases p)
    from shorten_save_cases [of e u' c db] Inr p show ?thesis
      by (auto simp: shorten_def internal_shorten_def)
  qed
  with False show ?thesis by simp
qed

text \<open>
  A second request for a URL whose first request succeeded answers 200 with the same
  code and writes nothing.
\<close>

lemma shorten_again:
  assumes first: "shorten e1 (Some u) db = ((st, b), db1)"
    and ok: "st < 400"
    and up: "reads_ok e2 0"
  shows "fst (fst (shorten e2 (Some u) db1)) = 200 \<and>
         body_shortUrl (snd (fst (shorten e2 (Some u) db1))) = body_shortUrl b \<and>
         body_shortUrl b \<noteq> None \<and>
         snd (shorten e2 (Some u) db1) = db1 \<and>
         records_for u db1 = (if records_for u db = 0 then 1 else records_for u db)"
proof (cases "shorten_pick e1 (Some u) db")
  case (Inl r)
  with first have r: "r = (st, b)" and db1: "db1 = db" by (simp_all add: shorten_def)
  from shorten_pick_Inl_ok [OF Inl [unfolded r] ok] obtain d where
    v: "u \<noteq> []" "url_pattern u" and f: "find (\<lambda>d. originalUrl d = u) db = Some d"
    and b: "b = ShortenBody ''URL already shortened'' (originalUrl d) (shortUrl d) (createdAt d)"
    by auto
  have "shorten e2 (Some u) db1 = ((200, b), db1)"
    using shorten_pick_found [OF v up f] b db1 by (simp add: shorten_def)
  moreover have "0 < records_for u db" using f by (rule records_for_found)
  ultimately show ?thesis using b db1 by simp
next
  case (Inr p)
  obtain u' c where p: "p = (u', c)" by (cases p)
  from shorten_pick_Inr [OF Inr [unfolded p]] have
    u': "u' = u" and v: "u \<noteq> []" "url_pattern u"
    and f: "find (\<lambda>d. originalUrl d = u) db = None"
    by auto
  from first Inr p u' have s: "shorten_save e1 u c db = ((st, b), db1)"
    by (simp add: shorten_def)
  from shorten_save_cases [of e1 u c db] s ok obtain code where
    b: "b = ShortenBody ''URL shortened successfully'' u code (now e1)"
    and db1: "db1 = db @ [\<lparr>oid = object_id e1, originalUrl = u, shortUrl = code,
                           createdAt = now e1, accessCount = 0\<rparr>]"
    by (auto simp: internal_shorten_def)
  have f1: "find (\<lambda>d. originalUrl d = u) db1 =
              Some \<lparr>oid = object_id e1, originalUrl = u, shortUrl = code,
                    createdAt = now e1, accessCount = 0\<rparr>"
    using f db1 by (simp add: find_snoc)
  have "shorten e2 (Some u) db1 =
          ((200, ShortenBody ''URL already shortened'' u code (now e1)), db1)"
    using shorten_pick_found [OF v up f1] by (simp add: shorten_def)
  moreover have "records_for u db1 = 1"
    using records_for_none [OF f] db1 by (simp add: records_for_def)
  moreover have "records_for u db = 0" using f by (rule records_for_none)
  ultimately show ?thesis using b by simp
qed


text \<open>
  The loop returns the first free code it is given, and the handler then inserts the
  document for a URL that has none.
\<close>

lemma generate_loop_free:
  "a \<le> k \<Longrightarrow> k < maxAttempts \<Longrightarrow>
   \<forall>j. a \<le> j \<and> j \<le> k \<longrightarrow> reads_ok e (Suc j) \<Longrightarrow>
   \<forall>j. a \<le> j \<and> j < k \<longrightarrow> (\<exists>d \<in> set db. shortUrl d = generate e j) \<Longrightarrow>
   \<forall>d \<in> set db. shortUrl d \<noteq> generate e k \<Longrightarrow>
   generate_loop e db (s, False, a) = Inr (Some (generate e k), True, Suc k)"
proof (induction "k - a" arbitrary: a s)
  case 0
  then have ak: "a = k" by simp
  from "0.prems"(5) have f: "find (\<lambda>d. shortUrl d = generate e k) db = None"
    by (auto simp: find_None_iff)
  from "0.prems"(3) ak have ok: "reads_ok e (Suc k)" by simp
  have "generate_loop e db (s, False, k) =
      generate_loop e db (Some (generate e k), True, Suc k)"
    using "0.prems"(2) ok f by (subst generate_loop.simps) (simp add: findOne_def)
  also have "\<dots> = Inr (Some (generate e k), True, Suc k)"
    by (subst generate_loop.simps) simp
  finally show ?case using ak by simp
next
  case (Suc n)
  then have lt: "a < k" by simp
  with Suc.prems have am: "a < maxAttempts" by simp
  from Suc.prems(3) lt have ok: "reads_ok e (Suc a)" by simp
  from Suc.prems(4) lt obtain y where f: "find (\<lambda>d. shortUrl d = generate e a) db = Some y"
    by (cases "find (\<lambda>d. shortUrl d = generate e a) db") (auto simp: find_None_iff)
  have step: "generate_loop e db (s, False, a) =
      generate_loop e db (Some (generate e a), False, Suc a)"
    using am ok f by (subst generate_loop.simps) (simp add: findOne_def)
  have "generate_loop e db (Some (generate e a), False, Suc a) =
      Inr (Some (generate e k), True, Suc k)"
    using Suc.hyps(2) Suc.prems lt by (intro Suc.hyps(1)) auto
  with step show ?case by simp
qed

lemma shorten_new_url:
  assumes f: "find (\<lambda>d. originalUrl d = u) db = None"
    and v: "u \<noteq> []" "url_pattern u"
    and up: "\<forall>j \<le> maxAttempts. reads_ok e j" "write_ok e"
    and k: "k < maxAttempts"
    and used: "\<forall>j < k. \<exists>d \<in> set db. shortUrl d = generate e j"
    and free: "\<forall>d \<in> set db. shortUrl d \<noteq> generate e k" "generate e k \<noteq> []"
    and fresh: "\<forall>d \<in> set db. oid d \<noteq> object_id e"
  shows "shorten e (Some u) db =
     ((201, ShortenBody ''URL shortened successfully'' u (generate e k) (now e)),
      db @ [\<lparr>oid = object_id e, originalUrl = u, shortUrl = generate e k,
             createdAt = now e, accessCount = 0\<rparr>])"
proof -
  have l: "generate_loop e db (None, False, 0) = Inr (Some (generate e k), True, Suc k)"
    using k up(1) used free(1) by (intro generate_loop_free) auto
  have r0: "reads_ok e 0" using up(1) by simp
  have p: "shorten_pick e (Some u) db = Inr (u, Some (generate e k))"
    using v f r0 l by (simp add: shorten_pick_def findOne_def)
  have "\<not> list_ex (\<lambda>x. oid x = object_id e \<or> shortUrl x = generate e k) db"
    using free(1) fresh by (auto simp: list_ex_iff)
  then have "shorten_save e u (Some (generate e k)) db =
     ((201, ShortenBody ''URL shortened successfully'' u (generate e k) (now e)),
      db @ [\<lparr>oid = object_id e, originalUrl = u, shortUrl = generate e k,
             createdAt = now e, accessCount = 0\<rparr>])"
    using v up(2) free(2) by (simp add: shorten_save_def save_new_def validate_doc_def)
  with p show ?thesis by (simp add: shorten_def)
qed

subsection \<open>\<open>/redirect\<close> and \<open>/url-info\<close> on a stored code\<close>

lemma redirect_save_found:
  assumes "list_ex (\<lambda>x. oid x = oid d) db" "write_ok e" "accessCount d < 2 ^ 53"
  shows "redirect_save e d db =
     ((200, RedirectBody (originalUrl d) (accessCount d + 1)),
      update_one (oid d) (accessCount d + 1) db)"
proof -
  from assms(3) have "to_double (accessCount d + 1) = accessCount d + 1"
    by (intro to_double_small) simp
  with assms(1,2) show ?thesis by (simp add: redirect_save_def save_existing_def)
qed

lemma redirect_found:
  assumes "c \<noteq> []" "find (\<lambda>x. shortUrl x = c) db = Some d" "reads_ok e 0" "write_ok e"
    "accessCount d < 2 ^ 53"
  shows "redirect e (Some c) db =
     ((200, RedirectBody (originalUrl d) (accessCount d + 1)),
      update_one (oid d) (accessCount d + 1) db)"
  using assms redirect_save_found [OF find_in_store [OF assms(2)] assms(4,5)]
  by (simp add: redirect_def redirect_find_def findOne_def)

lemma url_info_found:
  "c \<noteq> [] \<Longrightarrow> find (\<lambda>x. shortUrl x = c) db = Some d \<Longrightarrow> reads_ok e 0 \<Longrightarrow>
   url_info e (Some c) db = ((200, InfoBody (originalUrl d) c (createdAt d) (accessCount d)), db)"
proof -
  assume a: "c \<noteq> []" "find (\<lambda>x. shortUrl x = c) db = Some d" "reads_ok e 0"
  from a(2) have "shortUrl d = c" by (auto simp: find_Some_iff)
  with a show ?thesis by (simp add: url_info_def findOne_def)
qed

lemma redirect_seq_found:
  "distinct (map oid db) \<Longrightarrow> c \<noteq> [] \<Longrightarrow> find (\<lambda>x. shortUrl x = c) db = Some d \<Longrightarrow>
   \<forall>e \<in> set es. reads_ok e 0 \<and> write_ok e \<Longrightarrow>
   accessCount d + length es \<le> 2 ^ 53 \<Longrightarrow>
   distinct (map oid (redirect_seq es (Some c) db)) \<and>
   find (\<lambda>x. shortUrl x = c) (redirect_seq es (Some c) db) =
     Some (d\<lparr>accessCount := accessCount d + length es\<rparr>)"
proof (induction es arbitrary: db d)
  case Nil
  then show ?case by simp
next
  case (Cons e es)
  let ?db = "update_one (oid d) (accessCount d + 1) db"
  from Cons.prems(5) have lt: "accessCount d < 2 ^ 53" by simp
  have r: "snd (redirect e (Some c) db) = ?db"
    using redirect_found [of c db d e] Cons.prems lt by simp
  have d: "distinct (map oid ?db)" using Cons.prems(1) by (simp add: map_oid_update_one)
  have f: "find (\<lambda>x. shortUrl x = c) ?db = Some (d\<lparr>accessCount := accessCount d + 1\<rparr>)"
    using Cons.prems by (intro find_update_one)
  have b: "accessCount (d\<lparr>accessCount := accessCount d + 1\<rparr>) + length es \<le> 2 ^ 53"
    using Cons.prems(5) by simp
  from Cons.IH [OF d Cons.prems(2) f _ b] Cons.prems(4) r show ?case by simp
qed

subsection \<open>The unique indexes are kept\<close>

text \<open>
  The collection starts empty, and every handler keeps the \<open>_id\<close>s and the codes of
  the stored documents pairwise distinct; the statements below that assume distinct
  \<open>_id\<close>s hold of every collection the service can reach.
\<close>

lemma shorten_keeps_ids:
  "distinct (map oid db) \<Longrightarrow> distinct (map oid (snd (shorten e req db)))"
  by (auto simp: shorten_def shorten_save_def dest: save_new_fresh
      split: sum.splits prod.splits option.splits)

lemma shorten_keeps_codes:
  "distinct (map shortUrl db) \<Longrightarrow> distinct (map shortUrl (snd (shorten e req db)))"
  by (auto simp: shorten_def shorten_save_def dest: save_new_fresh
      split: sum.splits prod.splits option.splits)

lemma map_shortUrl_update_one: "map shortUrl (update_one i n db) = map shortUrl db"
  by (induction db) auto

lemma redirect_keeps_ids:
  "distinct (map oid db) \<Longrightarrow> distinct (map oid (snd (redirect e req db)))"
  by (auto simp: redirect_def redirect_save_def save_existing_def map_oid_update_one Let_def
      split: sum.splits if_splits)

lemma redirect_keeps_codes:
  "distinct (map shortUrl db) \<Longrightarrow> distinct (map shortUrl (snd (redirect e req db)))"
  by (auto simp: redirect_def redirect_save_def save_existing_def map_shortUrl_update_one Let_def
      split: sum.splits if_splits)

section \<open>The claims\<close>

subsection \<open>C1: a duplicate code at the insert\<close>

text \<open>
  Claim C1 says that a duplicate-key rejection of the insert makes \<open>/shorten\<close> go
  back to the loop and never reaches the caller. The handler has no such path: the
  \<open>save()\<close> comes after the loop, and what it throws is caught by the handler's
  \<open>catch\<close>. The run below has two requests for different URLs whose generators
  return the same code. Both finish the loop on the empty collection before either
  saves; the first save inserts the document, the second is rejected by the unique
  index and the second caller gets 500.
\<close>

theorem duplicate_key_not_retried_counterexample:
  "shorten_pick (stub_env (js ''abc'') 1 100) (Some (js ''http://a.com'')) [] =
     Inr (js ''http://a.com'', Some (js ''abc'')) \<and>
   shorten_pick (stub_env (js ''abc'') 2 200) (Some (js ''http://b.com'')) [] =
     Inr (js ''http://b.com'', Some (js ''abc'')) \<and>
   shorten_save (stub_env (js ''abc'') 1 100) (js ''http://a.com'') (Some (js ''abc'')) [] =
     ((201, ShortenBody ''URL shortened successfully'' (js ''http://a.com'') (js ''abc'') 100),
      [abc_doc 0]) \<and>
   shorten_save (stub_env (js ''abc'') 2 200) (js ''http://b.com'') (Some (js ''abc''))
       [abc_doc 0] =
     ((500, ErrorBody ''Internal server error while shortening URL''), [abc_doc 0])"
  by (simp add: shorten_pick_def shorten_save_def generate_loop.simps eval_defs)

text \<open>
  Claim C1, as amended. When the code that \<open>/shorten\<close> goes on to save is already
  stored at the time of the \<open>save()\<close>, the handler does not retry: it answers 500
  with the message of its \<open>catch\<close>, and the collection is unchanged.
\<close>

theorem duplicate_key_on_save_is_surfaced:
  "list_ex (\<lambda>x. shortUrl x = c) db \<Longrightarrow>
   shorten_save e u (Some c) db =
     ((500, ErrorBody ''Internal server error while shortening URL''), db)"
  by (auto simp: shorten_save_def save_new_def internal_shorten_def list_ex_iff)

theorem duplicate_key_on_save_is_surfaced_witness:
  "shorten_save (stub_env (js ''abc'') 2 200) (js ''http://b.com'') (Some (js ''abc''))
       [abc_doc 0] =
     ((500, ErrorBody ''Internal server error while shortening URL''), [abc_doc 0])"
  using duplicate_key_on_save_is_surfaced
    [of "js ''abc''" "[abc_doc 0]" "stub_env (js ''abc'') 2 200" "js ''http://b.com''"]
  by (simp add: abc_doc_def)

subsection \<open>C2: two overlapping redirects\<close>

text \<open>
  Claim C2 says that two simultaneous \<open>/redirect\<close> requests for one code leave
  \<open>accessCount\<close> incremented by 2. The handler reads the document, adds one to the
  count it read and saves that value. In the run below both requests read the
  document with count 0 before either saves: both answer 200 with count 1, and the
  stored count is 1.
\<close>

theorem overlapping_redirects_lose_update_counterexample:
  "redirect_find (stub_env (js ''x'') 0 0) (Some (js ''abc'')) [abc_doc 0] = Inr (abc_doc 0) \<and>
   redirect_find (stub_env (js ''y'') 0 0) (Some (js ''abc'')) [abc_doc 0] = Inr (abc_doc 0) \<and>
   redirect_save (stub_env (js ''x'') 0 0) (abc_doc 0) [abc_doc 0] =
     ((200, RedirectBody (js ''http://a.com'') 1), [abc_doc 1]) \<and>
   redirect_save (stub_env (js ''y'') 0 0) (abc_doc 0) [abc_doc 1] =
     ((200, RedirectBody (js ''http://a.com'') 1), [abc_doc 1])"
  by (simp add: redirect_find_def redirect_save_def eval_defs)

text \<open>
  Claim C2, as amended. For a stored code whose count can still take two increments
  (it is at most \<open>2^53 - 2\<close>) and a store that can be reached, two \<open>/redirect\<close>
  requests that run one after the other both answer 200 and leave \<open>accessCount\<close>
  incremented by 2. When both read before either saves, both answer 200 with the
  count incremented by 1, and the stored count is incremented by 1.
\<close>

theorem redirects_in_sequence_and_overlapping:
  assumes ids: "distinct (map oid db)"
    and c: "c \<noteq> []"
    and f: "find (\<lambda>x. shortUrl x = c) db = Some d"
    and a: "reads_ok ea 0" "write_ok ea"
    and b: "reads_ok eb 0" "write_ok eb"
    and bound: "accessCount d + 2 \<le> 2 ^ 53"
  shows "redirect ea (Some c) db =
           ((200, RedirectBody (originalUrl d) (accessCount d + 1)),
            update_one (oid d) (accessCount d + 1) db) \<and>
         redirect eb (Some c) (snd (redirect ea (Some c) db)) =
           ((200, RedirectBody (originalUrl d) (accessCount d + 2)),
            update_one (oid d) (accessCount d + 2) db) \<and>
         redirect_find ea (Some c) db = Inr d \<and>
         redirect_find eb (Some c) db = Inr d \<and>
         redirect_save eb d (snd (redirect_save ea d db)) =
           ((200, RedirectBody (originalUrl d) (accessCount d + 1)),
            update_one (oid d) (accessCount d + 1) db)"
proof -
  let ?db = "update_one (oid d) (accessCount d + 1) db"
  from bound have lt: "accessCount d < 2 ^ 53"
    and lt1: "accessCount (d\<lparr>accessCount := accessCount d + 1\<rparr>) < 2 ^ 53"
    by simp_all
  have r1: "redirect ea (Some c) db =
      ((200, RedirectBody (originalUrl d) (accessCount d + 1)), ?db)"
    using c f a lt by (rule redirect_found)
  have f1: "find (\<lambda>x. shortUrl x = c) ?db = Some (d\<lparr>accessCount := accessCount d + 1\<rparr>)"
    using ids f by (rule find_update_one)
  have r2: "redirect eb (Some c) ?db =
      ((200, RedirectBody (originalUrl d) (accessCount d + 2)),
       update_one (oid d) (accessCount d + 2) db)"
    using redirect_found [OF c f1 b lt1] by (simp add: update_one_twice)
  have fa: "redirect_find ea (Some c) db = Inr d" "redirect_find eb (Some c) db = Inr d"
    using c f a b by (simp_all add: redirect_find_def findOne_def)
  have ex: "list_ex (\<lambda>x. oid x = oid d) db" using f by (rule find_in_store)
  then have ex1: "list_ex (\<lambda>x. oid x = oid d) ?db"
    by (simp add: list_ex_oid map_oid_update_one)
  have s1: "redirect_save ea d db =
      ((200, RedirectBody (originalUrl d) (accessCount d + 1)), ?db)"
    using ex a(2) lt by (rule redirect_save_found)
  have s2: "redirect_save eb d ?db =
      ((200, RedirectBody (originalUrl d) (accessCount d + 1)), ?db)"
    using redirect_save_found [OF ex1 b(2) lt] by (simp add: update_one_twice)
  from r1 r2 fa s1 s2 show ?thesis by simp
qed

theorem redirects_in_sequence_and_overlapping_witness:
  "redirect (stub_env (js ''y'') 0 0) (Some (js ''abc''))
     (snd (redirect (stub_env (js ''x'') 0 0) (Some (js ''abc'')) [abc_doc 0])) =
     ((200, RedirectBody (js ''http://a.com'') 2), [abc_doc 2]) \<and>
   redirect_save (stub_env (js ''y'') 0 0) (abc_doc 0)
     (snd (redirect_save (stub_env (js ''x'') 0 0) (abc_doc 0) [abc_doc 0])) =
     ((200, RedirectBody (js ''http://a.com'') 1), [abc_doc 1])"
proof -
  have ids: "distinct (map oid [abc_doc 0])" by simp
  have c: "js ''abc'' \<noteq> []" by (simp add: js_def)
  have f: "find (\<lambda>x. shortUrl x = js ''abc'') [abc_doc 0] = Some (abc_doc 0)"
    by (simp add: abc_doc_def)
  have a: "reads_ok (stub_env (js ''x'') 0 0) 0" "write_ok (stub_env (js ''x'') 0 0)"
    by (simp_all add: stub_env_def)
  have b: "reads_ok (stub_env (js ''y'') 0 0) 0" "write_ok (stub_env (js ''y'') 0 0)"
    by (simp_all add: stub_env_def)
  have bound: "accessCount (abc_doc 0) + 2 \<le> 2 ^ 53" by (simp add: abc_doc_def)
  from redirects_in_sequence_and_overlapping [OF ids c f a b bound] show ?thesis
    by (auto simp: abc_doc_def numeral_2_eq_2)
qed

subsection \<open>C3: shortening a URL twice\<close>

text \<open>
  Claim C3. Take a valid URL and a first \<open>/shorten\<close> request that reaches the store,
  whose generator returns a free, non-empty code within the rounds of the loop and
  whose new \<open>_id\<close> is not taken. If the URL has no document yet, the first request
  answers 201 with that code and appends one document for the URL. In every case the
  first request succeeds, and a second request for the same URL that reaches the
  store answers 200 with the same code as the first and leaves the collection as the
  first left it, whatever its generator would return. A URL that had no document
  before has exactly one after both requests.
\<close>

theorem shorten_idempotent:
  assumes v: "u \<noteq> []" "url_pattern u"
    and up1: "\<forall>j \<le> maxAttempts. reads_ok e1 j" "write_ok e1"
    and k: "k < maxAttempts"
    and used: "\<forall>j < k. \<exists>d \<in> set db. shortUrl d = generate e1 j"
    and free: "\<forall>d \<in> set db. shortUrl d \<noteq> generate e1 k" "generate e1 k \<noteq> []"
    and fresh: "\<forall>d \<in> set db. oid d \<noteq> object_id e1"
    and up2: "reads_ok e2 0"
  shows "(records_for u db = 0 \<longrightarrow>
            shorten e1 (Some u) db =
              ((201, ShortenBody ''URL shortened successfully'' u (generate e1 k) (now e1)),
               db @ [\<lparr>oid = object_id e1, originalUrl = u, shortUrl = generate e1 k,
                      createdAt = now e1, accessCount = 0\<rparr>])) \<and>
         fst (fst (shorten e1 (Some u) db)) < 400 \<and>
         body_shortUrl (snd (fst (shorten e1 (Some u) db))) \<noteq> None \<and>
         fst (fst (shorten e2 (Some u) (snd (shorten e1 (Some u) db)))) = 200 \<and>
         body_shortUrl (snd (fst (shorten e2 (Some u) (snd (shorten e1 (Some u) db))))) =
           body_shortUrl (snd (fst (shorten e1 (Some u) db))) \<and>
         snd (shorten e2 (Some u) (snd (shorten e1 (Some u) db))) =
           snd (shorten e1 (Some u) db) \<and>
         records_for u (snd (shorten e1 (Some u) db)) =
           (if records_for u db = 0 then 1 else records_for u db)"
proof -
  obtain st b db1 where first: "shorten e1 (Some u) db = ((st, b), db1)"
    by (cases "shorten e1 (Some u) db") auto
  have new: "records_for u db = 0 \<Longrightarrow>
      shorten e1 (Some u) db =
        ((201, ShortenBody ''URL shortened successfully'' u (generate e1 k) (now e1)),
         db @ [\<lparr>oid = object_id e1, originalUrl = u, shortUrl = generate e1 k,
                createdAt = now e1, accessCount = 0\<rparr>])"
  proof -
    assume "records_for u db = 0"
    then have "find (\<lambda>d. originalUrl d = u) db = None"
      by (cases "find (\<lambda>d. originalUrl d = u) db") (auto dest: records_for_found)
    then show ?thesis using v up1 k used free fresh by (rule shorten_new_url)
  qed
  have ok: "st < 400"
  proof (cases "find (\<lambda>d. originalUrl d = u) db")
    case None
    then have "records_for u db = 0" by (rule records_for_none)
    from new [OF this] first show ?thesis by simp
  next
    case (Some d)
    from up1(1) have "reads_ok e1 0" by simp
    from shorten_pick_found [OF v this Some] first show ?thesis by (simp add: shorten_def)
  qed
  from shorten_again [OF first ok up2] new first ok show ?thesis by simp
qed

theorem shorten_idempotent_witness:
  "shorten (two_code_env (js ''abc'') (js ''xyz'') 2 200) (Some (js ''http://b.com''))
       [abc_doc 0] =
     ((201, ShortenBody ''URL shortened successfully'' (js ''http://b.com'') (js ''xyz'') 200),
      [abc_doc 0,
       \<lparr>oid = 2, originalUrl = js ''http://b.com'', shortUrl = js ''xyz'',
        createdAt = 200, accessCount = 0\<rparr>]) \<and>
   shorten (stub_env (js ''zzz'') 3 300) (Some (js ''http://b.com''))
       [abc_doc 0,
        \<lparr>oid = 2, originalUrl = js ''http://b.com'', shortUrl = js ''xyz'',
         createdAt = 200, accessCount = 0\<rparr>] =
     ((200, ShortenBody ''URL already shortened'' (js ''http://b.com'') (js ''xyz'') 200),
      [abc_doc 0,
       \<lparr>oid = 2, originalUrl = js ''http://b.com'', shortUrl = js ''xyz'',
        createdAt = 200, accessCount = 0\<rparr>]) \<and>
   records_for (js ''http://b.com'')
       [abc_doc 0,
        \<lparr>oid = 2, originalUrl = js ''http://b.com'', shortUrl = js ''xyz'',
         createdAt = 200, accessCount = 0\<rparr>] = 1"
proof -
  let ?e1 = "two_code_env (js ''abc'') (js ''xyz'') 2 200"
  let ?e2 = "stub_env (js ''zzz'') 3 300"
  let ?u = "js ''http://b.com''"
  let ?db1 = "[abc_doc 0,
       \<lparr>oid = 2, originalUrl = js ''http://b.com'', shortUrl = js ''xyz'',
        createdAt = 200, accessCount = 0\<rparr>]"
  have v: "?u \<noteq> []" "url_pattern ?u"
    by (simp_all add: eval_defs)
  have up1: "\<forall>j \<le> maxAttempts. reads_ok ?e1 j" "write_ok ?e1"
    by (simp_all add: two_code_env_def)
  have k: "1 < maxAttempts" by (simp add: maxAttempts_def)
  have used: "\<forall>j < 1. \<exists>d \<in> set [abc_doc 0]. shortUrl d = generate ?e1 j"
    by (simp add: two_code_env_def abc_doc_def)
  have free: "\<forall>d \<in> set [abc_doc 0]. shortUrl d \<noteq> generate ?e1 1" "generate ?e1 1 \<noteq> []"
    by (simp_all add: two_code_env_def abc_doc_def js_def)
  have fresh: "\<forall>d \<in> set [abc_doc 0]. oid d \<noteq> object_id ?e1"
    by (simp add: two_code_env_def abc_doc_def)
  have up2: "reads_ok ?e2 0" by (simp add: stub_env_def)
  have r0: "records_for ?u [abc_doc 0] = 0" by (simp add: records_for_def abc_doc_def js_def)
  have g: "generate ?e1 1 = js ''xyz''" "now ?e1 = 200" "object_id ?e1 = 2"
    by (simp_all add: two_code_env_def)
  note t = shorten_idempotent [OF v up1 k used free fresh up2]
  from t r0 g have first: "shorten ?e1 (Some ?u) [abc_doc 0] =
      ((201, ShortenBody ''URL shortened successfully'' ?u (js ''xyz'') 200), ?db1)"
    by simp
  have second: "shorten ?e2 (Some ?u) ?db1 =
      ((200, ShortenBody ''URL already shortened'' ?u (js ''xyz'') 200), ?db1)"
    by (simp add: shorten_def shorten_pick_def eval_defs)
  from t first r0 have "records_for ?u ?db1 = 1" by simp
  with first second show ?thesis by simp
qed

subsection \<open>C4: every generated code is taken\<close>

text \<open>
  Claim C4. For a valid URL with no document yet and a store that can be reached, if
  each of the codes the generator returns is already stored, the loop stops after
  exactly 10 rounds with \<open>isUnique\<close> false, and \<open>/shorten\<close> answers 500 with the
  message that no unique short URL could be generated, a server-side status; the
  collection is unchanged.
\<close>

theorem shorten_exhaustion:
  assumes v: "u \<noteq> []" "url_pattern u"
    and f: "find (\<lambda>d. originalUrl d = u) db = None"
    and up: "\<forall>k \<le> maxAttempts. reads_ok e k"
    and used: "\<forall>k < maxAttempts. \<exists>d \<in> set db. shortUrl d = generate e k"
  shows "generate_loop e db (None, False, 0) = Inr (Some (generate e 9), False, 10) \<and>
         shorten e (Some u) db = ((500, ErrorBody ''Failed to generate unique short URL''), db)"
proof -
  have "generate_loop e db (None, False, 0) =
      Inr (if 0 < maxAttempts then Some (generate e (maxAttempts - 1)) else None,
           False, maxAttempts)"
    using up used by (intro generate_loop_exhausted) auto
  then have l: "generate_loop e db (None, False, 0) = Inr (Some (generate e 9), False, 10)"
    by (simp add: maxAttempts_def)
  have "reads_ok e 0" using up by simp
  then show ?thesis using v f l by (simp add: shorten_def shorten_pick_def findOne_def)
qed

theorem shorten_exhaustion_witness:
  "generate_loop (stub_env (js ''abc'') 2 200) [abc_doc 0] (None, False, 0) =
     Inr (Some (js ''abc''), False, 10) \<and>
   shorten (stub_env (js ''abc'') 2 200) (Some (js ''http://b.com'')) [abc_doc 0] =
     ((500, ErrorBody ''Failed to generate unique short URL''), [abc_doc 0])"
proof -
  have v: "js ''http://b.com'' \<noteq> []" "url_pattern (js ''http://b.com'')"
    by (simp_all add: eval_defs)
  have f: "find (\<lambda>d. originalUrl d = js ''http://b.com'') [abc_doc 0] = None"
    by (simp add: eval_defs)
  have up: "\<forall>k \<le> maxAttempts. reads_ok (stub_env (js ''abc'') 2 200) k"
    by (simp add: stub_env_def)
  have used: "\<forall>k < maxAttempts.
      \<exists>d \<in> set [abc_doc 0]. shortUrl d = generate (stub_env (js ''abc'') 2 200) k"
    by (simp add: stub_env_def abc_doc_def)
  from shorten_exhaustion [OF v f up used] show ?thesis by (simp add: stub_env_def)
qed

subsection \<open>C5: what a redirect does to the count\<close>

text \<open>
  Claim C5. For a stored code and a store that can be reached, \<open>/redirect\<close> answers
  200 with the stored \<open>originalUrl\<close> and the count after the increment, and stores
  that count in the document it read. After \<open>K\<close> such requests, one after the other,
  \<open>/url-info\<close> reports the count the document had before plus \<open>K\<close>, which is
  \<open>K\<close> for a document that started at 0. This holds while the count stays within
  \<open>2^53\<close>, the last value that the handler's addition can reach by steps of 1.
\<close>

theorem redirect_increments:
  assumes ids: "distinct (map oid db)"
    and c: "c \<noteq> []"
    and f: "find (\<lambda>x. shortUrl x = c) db = Some d"
    and e: "reads_ok e 0" "write_ok e"
    and es: "\<forall>e \<in> set es. reads_ok e 0 \<and> write_ok e"
    and e': "reads_ok e' 0"
    and one: "accessCount d < 2 ^ 53"
    and bound: "accessCount d + length es \<le> 2 ^ 53"
  shows "redirect e (Some c) db =
           ((200, RedirectBody (originalUrl d) (accessCount d + 1)),
            update_one (oid d) (accessCount d + 1) db) \<and>
         find (\<lambda>x. shortUrl x = c) (snd (redirect e (Some c) db)) =
           Some (d\<lparr>accessCount := accessCount d + 1\<rparr>) \<and>
         fst (url_info e' (Some c) (redirect_seq es (Some c) db)) =
           (200, InfoBody (originalUrl d) c (createdAt d) (accessCount d + length es))"
proof -
  from redirect_seq_found [OF ids c f es bound]
  have "find (\<lambda>x. shortUrl x = c) (redirect_seq es (Some c) db) =
     Some (d\<lparr>accessCount := accessCount d + length es\<rparr>)" by simp
  from url_info_found [OF c this e'] redirect_found [OF c f e one] find_update_one [OF ids f]
  show ?thesis by simp
qed

theorem redirect_increments_witness:
  "redirect (stub_env (js ''x'') 0 0) (Some (js ''abc'')) [abc_doc 0] =
     ((200, RedirectBody (js ''http://a.com'') 1), [abc_doc 1]) \<and>
   fst (url_info (stub_env (js ''x'') 0 0) (Some (js ''abc''))
         (redirect_seq [stub_env (js ''x'') 0 0, stub_env (js ''x'') 0 0, stub_env (js ''x'') 0 0]
            (Some (js ''abc'')) [abc_doc 0])) =
     (200, InfoBody (js ''http://a.com'') (js ''abc'') 100 3)"
proof -
  have ids: "distinct (map oid [abc_doc 0])" by simp
  have c: "js ''abc'' \<noteq> []" by (simp add: js_def)
  have f: "find (\<lambda>x. shortUrl x = js ''abc'') [abc_doc 0] = Some (abc_doc 0)"
    by (simp add: abc_doc_def)
  have e: "reads_ok (stub_env (js ''x'') 0 0) 0" "write_ok (stub_env (js ''x'') 0 0)"
    by (simp_all add: stub_env_def)
  have es: "\<forall>e \<in> set [stub_env (js ''x'') 0 0, stub_env (js ''x'') 0 0, stub_env (js ''x'') 0 0].
      reads_ok e 0 \<and> write_ok e"
    by (simp add: stub_env_def)
  have one: "accessCount (abc_doc 0) < 2 ^ 53" by (simp add: abc_doc_def)
  have bound: "accessCount (abc_doc 0) +
      length [stub_env (js ''x'') 0 0, stub_env (js ''x'') 0 0, stub_env (js ''x'') 0 0] \<le> 2 ^ 53"
    by (simp add: abc_doc_def)
  from redirect_increments [OF ids c f e es e(1) one bound] show ?thesis
    by (auto simp: abc_doc_def numeral_3_eq_3)
qed

subsection \<open>C6: \<open>/url-info\<close> writes nothing\<close>

text \<open>
  Claim C6. \<open>/url-info\<close> leaves the collection exactly as it was, for every body,
  every collection and every state of the store, so it changes no count and no other
  field. The same holds of \<open>/urls\<close>, and \<open>/shorten\<close> leaves every document that was
  stored before as it was; \<open>/redirect\<close> is the one handler that writes to a stored
  document.
\<close>

theorem url_info_read_only:
  "snd (url_info e req db) = db \<and>
   snd (urls e1 l p db) = db \<and>
   take (length db) (snd (shorten e2 req2 db)) = db"
proof -
  have "snd (url_info e req db) = db"
    by (simp add: url_info_def findOne_def split: option.splits sum.splits)
  moreover have "snd (urls e1 l p db) = db"
    by (simp add: urls_def Let_def split: option.splits sum.splits)
  ultimately show ?thesis by (simp add: shorten_keeps)
qed

subsection \<open>C7: a page of the listing\<close>



subsection \<open>C8: which URLs are rejected\<close>

text \<open>
  Claim C8 says that \<open>/shorten\<close> rejects a URL exactly when it is empty or does not
  match \<^verbatim>\<open>^https?://\<close>. The handler's pattern is \<^verbatim>\<open>^https?:\/\/.+\<close>: it
  also wants a character after the two slashes. The URL \<^verbatim>\<open>http://\<close> is not
  empty and starts with the scheme and the slashes, and is rejected with 400.
\<close>

theorem bare_scheme_rejected_counterexample:
  "js ''http://'' \<noteq> [] \<and> spec_scheme_pattern (js ''http://'') \<and>
   shorten (stub_env (js ''abc'') 1 100) (Some (js ''http://'')) [] =
     ((400, ErrorBody ''Invalid URL format. Must be a valid HTTP or HTTPS URL''), [])"
  by (simp add: shorten_def shorten_pick_def spec_scheme_pattern_def eval_defs)

text \<open>
  Claim C8, as amended. \<open>/shorten\<close> answers 400 exactly when the URL is empty or
  does not match \<^verbatim>\<open>^https?:\/\/.+\<close>, that is, does not start with \<^verbatim>\<open>http://\<close>
  or \<^verbatim>\<open>https://\<close> followed by a character that is not a line terminator; this
  holds for every collection and every state of the store. In particular the empty
  string, \<^verbatim>\<open>not-a-url\<close> and \<^verbatim>\<open>ftp://x.com\<close> are rejected with 400.
\<close>

theorem shorten_validation:
  "(fst (fst (shorten e (Some u) db)) = 400 \<longleftrightarrow> (u = [] \<or> \<not> url_pattern u)) \<and>
   fst (fst (shorten e (Some (js '''')) db)) = 400 \<and>
   fst (fst (shorten e (Some (js ''not-a-url'')) db)) = 400 \<and>
   fst (fst (shorten e (Some (js ''ftp://x.com'')) db)) = 400"
proof -
  have "\<not> url_pattern (js ''not-a-url'')" "\<not> url_pattern (js ''ftp://x.com'')" "js '''' = []"
    by (simp_all add: url_pattern_def after_scheme_def js_def)
  then show ?thesis by (simp add: shorten_status_400)
qed

theorem shorten_validation_witness:
  "fst (fst (shorten (stub_env (js ''abc'') 1 100) (Some (js ''http://\<newline>'')) [])) = 400 \<and>
   fst (fst (shorten (stub_env (js ''abc'') 1 100) (Some (js ''http://a.com'')) [])) \<noteq> 400 \<and>
   fst (fst (shorten (stub_env (js ''abc'') 1 100) (Some (js ''ftp://x.com'')) [abc_doc 0])) = 400"
  using shorten_validation [of "stub_env (js ''abc'') 1 100" "js ''http://\<newline>''" "[]"]
    shorten_validation [of "stub_env (js ''abc'') 1 100" "js ''http://a.com''" "[]"]
    shorten_validation [of "stub_env (js ''abc'') 1 100" "js ''ftp://x.com''" "[abc_doc 0]"]
  by (simp add: eval_defs)

subsection \<open>C9: a failed \<open>/shorten\<close> writes nothing\<close>

text \<open>
  Claim C9. Whenever \<open>/shorten\<close> answers with an error status (400 for a missing or
  invalid URL, 500 when the loop runs out of rounds or a store operation throws),
  the collection afterwards is the collection before.
\<close>

theorem shorten_failure_keeps_store:
  "400 \<le> fst (fst (shorten e req db)) \<Longrightarrow> snd (shorten e req db) = db"
  by (rule shorten_failure)

theorem shorten_failure_keeps_store_witness:
  "400 \<le> fst (fst (shorten (stub_env (js ''abc'') 2 200) (Some (js ''http://b.com''))
                     [abc_doc 0])) \<and>
   snd (shorten (stub_env (js ''abc'') 2 200) (Some (js ''http://b.com'')) [abc_doc 0]) =
     [abc_doc 0]"
proof -
  have h: "400 \<le> fst (fst (shorten (stub_env (js ''abc'') 2 200) (Some (js ''http://b.com''))
                             [abc_doc 0]))"
    by (simp add: shorten_def shorten_pick_def generate_loop.simps eval_defs)
  from h shorten_failure_keeps_store [OF h] show ?thesis by simp
qed

subsection \<open>C10: the empty code\<close>

text \<open>
  Claim C10. For the empty string as the code, both \<open>/redirect\<close> and \<open>/url-info\<close>
  answer 400 with the message that \<open>shortUrl\<close> is required, not 404: the handlers
  take an empty \<open>shortUrl\<close> for an absent one before any query is sent, whatever the
  collection holds and whether or not the store can be reached.
\<close>

theorem empty_code_is_missing_input:
  "redirect e (Some (js '''')) db =
     ((400, ErrorBody ''shortUrl is required in request body''), db) \<and>
   url_info e' (Some (js '''')) db' =
     ((400, ErrorBody ''shortUrl is required in request body''), db')"
  by (simp add: redirect_def redirect_find_def url_info_def js_def)

end
